theory Spec2Isabelle
  imports Main "HOL-Library.Multiset" "HOL-Library.Product_Lexorder"
begin

section \<open>Data model\<close>

text \<open>
  The rows of the relational store, with the columns that the route handlers of
  \<^verbatim>\<open>server/routes/posts.js\<close> and \<^verbatim>\<open>server/routes/applications.js\<close> read and write.
  Account types, post types and statuses are strings, as in the JavaScript; timestamps are
  integers counting milliseconds, the unit of \<^verbatim>\<open>Date.now()\<close>.
  A table is the list of its rows.
\<close>

record user =
  u_id :: nat
  u_account_type :: string

record cv =
  c_id :: nat
  c_user_id :: nat
  c_is_active :: bool

record post =
  p_id :: nat
  p_user_id :: nat
  p_post_type :: string
  p_title :: string
  p_description :: string
  p_attached_cv_id :: "nat option"
  p_created_at :: int
  p_updated_at :: int

record follow =
  follower_id :: nat
  following_id :: nat

record application =
  a_id :: nat
  a_post_id :: nat
  a_cv_id :: nat
  a_applicant_id :: nat
  a_status :: string
  a_created_at :: int

record store =
  users :: "user list"
  cvs :: "cv list"
  posts :: "post list"
  follows :: "follow list"
  applications :: "application list"
  post_seq :: nat
  application_seq :: nat

text \<open>
  The responses with which a handler ends a request early, named after the error kinds of
  the specification; \<open>http_status\<close> is the code passed to \<^verbatim>\<open>res.status\<close>.
  \<^item> \<open>ForbiddenError\<close>: 403 "Only candidates can apply to posts";
  \<^item> \<open>NotFoundError\<close>: 404 "Post not found";
  \<^item> \<open>InvalidPostTypeError\<close>: 400 "Can only apply to find_candidate posts",
    "Only candidates can create find_job posts", "Only companies can create find_candidate posts";
  \<^item> \<open>ExpiredPostError\<close>: 400 "This job post has expired and no longer accepts applications";
  \<^item> \<open>InvalidCvError\<close>: 400 "CV not found or not active";
  \<^item> \<open>DuplicateApplicationError\<close>: 400 "Already applied to this post";
  \<^item> \<open>MissingCvError\<close>: 400 "CV is required for job seeking posts";
  \<^item> \<open>InvalidStatusError\<close>: 400 "Invalid status";
  \<^item> \<open>NotFoundOrUnauthorizedError\<close>: 404 "Application not found or not authorized",
    "Post not found or not authorized";
  \<^item> \<open>NotAuthorizedError\<close>: 403 "Not authorized to view these applications";
  \<^item> \<open>ServerError\<close>: 500 "Server error", the \<^verbatim>\<open>catch\<close> branch of every handler.
\<close>

datatype error =
    ForbiddenError
  | NotFoundError
  | InvalidPostTypeError
  | ExpiredPostError
  | InvalidCvError
  | DuplicateApplicationError
  | MissingCvError
  | InvalidStatusError
  | NotFoundOrUnauthorizedError
  | NotAuthorizedError
  | ServerError

fun http_status :: "error \<Rightarrow> nat" where
  "http_status ForbiddenError = 403"
| "http_status NotFoundError = 404"
| "http_status InvalidPostTypeError = 400"
| "http_status ExpiredPostError = 400"
| "http_status InvalidCvError = 400"
| "http_status DuplicateApplicationError = 400"
| "http_status MissingCvError = 400"
| "http_status InvalidStatusError = 400"
| "http_status NotFoundOrUnauthorizedError = 404"
| "http_status NotAuthorizedError = 403"
| "http_status ServerError = 500"

section \<open>Expiration\<close>

text \<open>\<^verbatim>\<open>10 * 24 * 60 * 60 * 1000\<close> milliseconds, the SQL \<^verbatim>\<open>INTERVAL '10 days'\<close>.\<close>

definition ten_days :: int where
  "ten_days = 10 * 24 * 60 * 60 * 1000"

text \<open>
  The SQL expression of the listing, the per-user listing and the single-post read:
  \<^verbatim>\<open>CASE WHEN p.post_type = 'find_candidate'
     AND p.created_at < (CURRENT_TIMESTAMP - INTERVAL '10 days') THEN true ELSE false END\<close>.
  The value of \<^verbatim>\<open>CURRENT_TIMESTAMP - INTERVAL '10 days'\<close> is computed by the
  database, which goes back ten calendar days in the time zone of the session; across a
  change of the clock these are not 240 hours. That value is the parameter \<open>cutoff\<close> of
  every definition that embeds a query.
\<close>

definition is_expired :: "int \<Rightarrow> post \<Rightarrow> bool" where
  "is_expired cutoff p =
     (if p_post_type p = ''find_candidate'' \<and> p_created_at p < cutoff
      then True else False)"

text \<open>The cutoff of a statement run at \<open>now\<close> when each of the ten days has 24 hours.\<close>

definition cutoff_24h :: "int \<Rightarrow> int" where
  "cutoff_24h now = now - ten_days"

text \<open>
  The guard of the apply handler:
  \<^verbatim>\<open>post.created_at < new Date(Date.now() - 10 * 24 * 60 * 60 * 1000)\<close>.
\<close>

definition isExpired :: "int \<Rightarrow> post \<Rightarrow> bool" where
  "isExpired now p = (p_created_at p < now - ten_days)"

section \<open>Application workflow\<close>

text \<open>
  Modelled from the spec: the table declarations are not among the sources, so the columns
  that \<^verbatim>\<open>INSERT INTO applications (post_id, cv_id, applicant_id)\<close> leaves to
  the database are taken from the specification: the initial status is \<open>pending\<close>, the id
  comes from a sequence, and \<open>created_at\<close> is the time of the insert.
\<close>

definition default_status :: string where
  "default_status = ''pending''"

text \<open>
  \<^verbatim>\<open>router.post('/')\<close> of applications.js. Every early \<^verbatim>\<open>return\<close>
  precedes the INSERT, so a refused request leaves the store as it was.
\<close>

definition apply_post ::
  "store \<Rightarrow> user \<Rightarrow> nat \<Rightarrow> nat \<Rightarrow> int \<Rightarrow> (error + application) \<times> store" where
  "apply_post st actor post_id cv_id now =
     (if u_account_type actor \<noteq> ''candidate'' then (Inl ForbiddenError, st)
      else case filter (\<lambda>p. p_id p = post_id) (posts st) of
        [] \<Rightarrow> (Inl NotFoundError, st)
      | p # _ \<Rightarrow>
          if p_post_type p \<noteq> ''find_candidate'' then (Inl InvalidPostTypeError, st)
          else if isExpired now p then (Inl ExpiredPostError, st)
          else if filter (\<lambda>c. c_id c = cv_id \<and> c_user_id c = u_id actor \<and> c_is_active c)
                    (cvs st) = []
            then (Inl InvalidCvError, st)
          else if filter (\<lambda>a. a_post_id a = post_id \<and> a_applicant_id a = u_id actor)
                    (applications st) \<noteq> []
            then (Inl DuplicateApplicationError, st)
          else
            let a = \<lparr>a_id = application_seq st, a_post_id = post_id, a_cv_id = cv_id,
                     a_applicant_id = u_id actor, a_status = default_status,
                     a_created_at = now\<rparr>
            in (Inr a, st\<lparr>applications := applications st @ [a],
                          application_seq := Suc (application_seq st)\<rparr>))"

definition validStatuses :: "string list" where
  "validStatuses = [''pending'', ''reviewed'', ''accepted'', ''rejected'']"

text \<open>
  The WHERE clause of the UPDATE of \<^verbatim>\<open>router.patch('/:id/status')\<close>:
  \<^verbatim>\<open>applications.id = $2 AND applications.post_id = posts.id AND posts.user_id = $3\<close>.
\<close>

definition status_target :: "store \<Rightarrow> user \<Rightarrow> nat \<Rightarrow> application \<Rightarrow> bool" where
  "status_target st actor app_id a =
     (a_id a = app_id \<and>
      (\<exists>p \<in> set (posts st). a_post_id a = p_id p \<and> p_user_id p = u_id actor))"

text \<open>
  \<^verbatim>\<open>router.patch('/:id/status')\<close>: the status is checked against the four
  values, then one UPDATE both finds the row and writes it; the answer is the first
  returned row.
\<close>

definition updateStatus ::
  "store \<Rightarrow> user \<Rightarrow> nat \<Rightarrow> string \<Rightarrow> (error + application) \<times> store" where
  "updateStatus st actor app_id status =
     (if status \<notin> set validStatuses then (Inl InvalidStatusError, st)
      else case filter (status_target st actor app_id) (applications st) of
        [] \<Rightarrow> (Inl NotFoundOrUnauthorizedError, st)
      | a # _ \<Rightarrow>
          (Inr (a\<lparr>a_status := status\<rparr>),
           st\<lparr>applications :=
                 map (\<lambda>x. if status_target st actor app_id x then x\<lparr>a_status := status\<rparr> else x)
                   (applications st)\<rparr>))"

text \<open>
  What ORDER BY promises: the rows come back rearranged so that their keys ascend. Rows with
  equal keys come back in an order that the database is free to choose, so the result of a
  query is any list \<open>res\<close> with \<open>order_by key rows res\<close>.
\<close>

definition order_by :: "('a \<Rightarrow> 'k::linorder) \<Rightarrow> 'a list \<Rightarrow> 'a list \<Rightarrow> bool" where
  "order_by key rows res = (mset res = mset rows \<and> sorted (map key res))"

text \<open>
  The query of \<^verbatim>\<open>router.get('/post/:postId')\<close>: the applications of the post
  joined with their applicant and their CV, and the key of its
  \<^verbatim>\<open>ORDER BY a.created_at DESC\<close> (a descending timestamp is an ascending negated
  one).
\<close>

type_synonym application_row = "application \<times> user \<times> cv"

definition listForPost_rows :: "store \<Rightarrow> nat \<Rightarrow> application_row list" where
  "listForPost_rows st post_id =
     [(a, u, c).
        a \<leftarrow> applications st,
        u \<leftarrow> filter (\<lambda>u. u_id u = a_applicant_id a) (users st),
        c \<leftarrow> filter (\<lambda>c. c_id c = a_cv_id a) (cvs st),
        a_post_id a = post_id]"

fun listForPost_key :: "application_row \<Rightarrow> int" where
  "listForPost_key (a, u, c) = - a_created_at a"

text \<open>
  \<^verbatim>\<open>router.get('/post/:postId')\<close>: the post is looked up by id alone, and the
  owner is compared afterwards. A granted request is answered with the rows in the order
  \<open>ordered\<close> in which the database returns them, an order with
  \<open>order_by listForPost_key (listForPost_rows st post_id) ordered\<close>.
\<close>

definition listForPost ::
  "store \<Rightarrow> user \<Rightarrow> nat \<Rightarrow> application_row list \<Rightarrow> error + application_row list" where
  "listForPost st actor post_id ordered =
     (case filter (\<lambda>p. p_id p = post_id) (posts st) of
        [] \<Rightarrow> Inl NotFoundError
      | p # _ \<Rightarrow>
          if p_user_id p \<noteq> u_id actor then Inl NotAuthorizedError
          else Inr ordered)"

section \<open>Post catalog\<close>

text \<open>
  JavaScript truthiness of the \<^verbatim>\<open>attached_cv_id\<close> of a request body: an absent
  or null value and the number 0 are falsy. \<open>or_null\<close> is \<^verbatim>\<open>attached_cv_id || null\<close>.
\<close>

definition falsy :: "nat option \<Rightarrow> bool" where
  "falsy v = (case v of None \<Rightarrow> True | Some n \<Rightarrow> n = 0)"

definition or_null :: "nat option \<Rightarrow> nat option" where
  "or_null v = (if falsy v then None else v)"

text \<open>
  \<^verbatim>\<open>router.post('/')\<close> of posts.js. The INSERT names user_id, post_type, title,
  description and attached_cv_id.
  Modelled from the spec: the table declarations are not among the sources; the id is drawn
  from a sequence, and \<open>created_at\<close> and \<open>updated_at\<close> are the time of the insert. Any further
  constraint of the tables (a reference to an existing CV, say) is outside this model.
\<close>

definition create_post ::
  "store \<Rightarrow> user \<Rightarrow> string \<Rightarrow> string \<Rightarrow> string \<Rightarrow> nat option \<Rightarrow> int
     \<Rightarrow> (error + post) \<times> store" where
  "create_post st actor post_type title description attached_cv_id now =
     (if post_type = ''find_job'' \<and> u_account_type actor \<noteq> ''candidate''
        then (Inl InvalidPostTypeError, st)
      else if post_type = ''find_candidate'' \<and> u_account_type actor \<noteq> ''company''
        then (Inl InvalidPostTypeError, st)
      else if post_type = ''find_job'' \<and> falsy attached_cv_id
        then (Inl MissingCvError, st)
      else
        let p = \<lparr>p_id = post_seq st, p_user_id = u_id actor, p_post_type = post_type,
                 p_title = title, p_description = description,
                 p_attached_cv_id = or_null attached_cv_id,
                 p_created_at = now, p_updated_at = now\<rparr>
        in (Inr p, st\<lparr>posts := posts st @ [p], post_seq := Suc (post_seq st)\<rparr>))"

text \<open>
  \<^verbatim>\<open>router.put('/:id')\<close>: the SELECT and the UPDATE share the condition
  \<^verbatim>\<open>id = $1 AND user_id = $2\<close>; the answer is the first updated row.
\<close>

definition update_post ::
  "store \<Rightarrow> user \<Rightarrow> nat \<Rightarrow> string \<Rightarrow> string \<Rightarrow> nat option \<Rightarrow> int
     \<Rightarrow> (error + post) \<times> store" where
  "update_post st actor post_id title description attached_cv_id now =
     (let own = (\<lambda>p. p_id p = post_id \<and> p_user_id p = u_id actor);
          upd = (\<lambda>p. p\<lparr>p_title := title, p_description := description,
                        p_attached_cv_id := or_null attached_cv_id, p_updated_at := now\<rparr>)
      in case filter own (posts st) of
        [] \<Rightarrow> (Inl NotFoundOrUnauthorizedError, st)
      | p # _ \<Rightarrow>
          if p_post_type p = ''find_job'' \<and> falsy attached_cv_id
            then (Inl MissingCvError, st)
          else (Inr (upd p),
                st\<lparr>posts := map (\<lambda>q. if own q then upd q else q) (posts st)\<rparr>))"

text \<open>
  \<^verbatim>\<open>router.delete('/:id')\<close>:
  \<^verbatim>\<open>DELETE FROM posts WHERE id = $1 AND user_id = $2 RETURNING *\<close>.
  What the database does with rows that refer to a deleted post is decided by the table
  declarations and is outside this model.
\<close>

definition delete_post :: "store \<Rightarrow> user \<Rightarrow> nat \<Rightarrow> (error + unit) \<times> store" where
  "delete_post st actor post_id =
     (let own = (\<lambda>p. p_id p = post_id \<and> p_user_id p = u_id actor)
      in case filter own (posts st) of
        [] \<Rightarrow> (Inl NotFoundOrUnauthorizedError, st)
      | _ # _ \<Rightarrow> (Inr (), st\<lparr>posts := filter (\<lambda>p. \<not> own p) (posts st)\<rparr>))"

section \<open>Reading posts\<close>

text \<open>A LEFT JOIN keeps a row without a match, with NULL on the right.\<close>

definition left_join :: "'a list \<Rightarrow> 'a option list" where
  "left_join ms = (if ms = [] then [None] else map Some ms)"

record post_row =
  r_post :: post
  r_author :: user
  r_cv :: "cv option"
  r_is_expired :: bool

record feed_row = post_row +
  r_is_following_author :: bool

text \<open>
  \<^verbatim>\<open>router.get('/:id')\<close>: posts joined with their author and, when there is one,
  the attached CV; the answer is the first row. \<open>cutoff\<close> is the value of
  \<^verbatim>\<open>CURRENT_TIMESTAMP - INTERVAL '10 days'\<close> for the query.
\<close>

definition get_post :: "store \<Rightarrow> nat \<Rightarrow> int \<Rightarrow> error + post_row" where
  "get_post st post_id cutoff =
     (case [\<lparr>r_post = p, r_author = u, r_cv = c, r_is_expired = is_expired cutoff p\<rparr>.
              p \<leftarrow> posts st,
              u \<leftarrow> filter (\<lambda>u. u_id u = p_user_id p) (users st),
              c \<leftarrow> left_join (filter (\<lambda>c. Some (c_id c) = p_attached_cv_id p) (cvs st)),
              p_id p = post_id] of
        [] \<Rightarrow> Inl NotFoundError
      | r # _ \<Rightarrow> Inr r)"

subsection \<open>The feed\<close>

text \<open>
  The FROM and WHERE clauses of \<^verbatim>\<open>router.get('/')\<close>. The type filter is added only
  when the query parameter is truthy (a non-empty string).
\<close>

type_synonym joined = "post \<times> user \<times> cv option \<times> follow option"

definition feed_join :: "store \<Rightarrow> nat \<Rightarrow> string option \<Rightarrow> joined list" where
  "feed_join st viewer type =
     [(p, u, c, f).
        p \<leftarrow> posts st,
        u \<leftarrow> filter (\<lambda>u. u_id u = p_user_id p) (users st),
        c \<leftarrow> left_join (filter (\<lambda>c. Some (c_id c) = p_attached_cv_id p) (cvs st)),
        f \<leftarrow> left_join (filter (\<lambda>f. following_id f = p_user_id p \<and> follower_id f = viewer)
                           (follows st)),
        (case type of None \<Rightarrow> True | Some t \<Rightarrow> t = [] \<or> p_post_type p = t)]"

text \<open>The select list: the post with its two computed columns.\<close>

fun feed_select :: "int \<Rightarrow> joined \<Rightarrow> feed_row" where
  "feed_select cutoff (p, u, c, f) =
     \<lparr>r_post = p, r_author = u, r_cv = c, r_is_expired = is_expired cutoff p,
      r_is_following_author = (if f \<noteq> None then True else False)\<rparr>"

text \<open>
  The three expressions of the ORDER BY clause:
  \<^verbatim>\<open>CASE WHEN p.post_type = 'find_candidate' AND p.created_at < (CURRENT_TIMESTAMP - INTERVAL '10 days') THEN 1 ELSE 0 END ASC\<close>,
  \<^verbatim>\<open>CASE WHEN f.follower_id IS NOT NULL THEN 0 ELSE 1 END\<close> and
  \<^verbatim>\<open>p.created_at DESC\<close>. A descending timestamp is an ascending negated one, and
  triples are compared lexicographically.
\<close>

definition expiration_bucket :: "int \<Rightarrow> post \<Rightarrow> nat" where
  "expiration_bucket cutoff p =
     (if p_post_type p = ''find_candidate'' \<and> p_created_at p < cutoff then 1 else 0)"

definition follow_bucket :: "follow option \<Rightarrow> nat" where
  "follow_bucket f = (if f \<noteq> None then 0 else 1)"

fun feed_key :: "int \<Rightarrow> joined \<Rightarrow> nat \<times> nat \<times> int" where
  "feed_key cutoff (p, u, c, f) = (expiration_bucket cutoff p, follow_bucket f, - p_created_at p)"

text \<open>
  \<^verbatim>\<open>LIMIT limit OFFSET (page - 1) * limit\<close>, for the numbers that the query
  parameters \<open>page\<close> and \<open>limit\<close> denote (1 and 10 when they are absent). The database
  refuses a negative limit or offset, which the handler answers with 500.
\<close>

definition paginate :: "int \<Rightarrow> int \<Rightarrow> 'a list \<Rightarrow> error + 'a list" where
  "paginate page limit res =
     (let offset = (page - 1) * limit
      in if limit < 0 \<or> offset < 0 then Inl ServerError
         else Inr (take (nat limit) (drop (nat offset) res)))"

text \<open>
  The answer of \<^verbatim>\<open>router.get('/')\<close> when the database returns the joined rows in
  the order \<open>ordered\<close>, an order with
  \<open>order_by (feed_key cutoff) (feed_join st (u_id actor) type) ordered\<close>.
\<close>

definition get_posts :: "int \<Rightarrow> int \<Rightarrow> int \<Rightarrow> joined list \<Rightarrow> error + feed_row list" where
  "get_posts page limit cutoff ordered =
     (case paginate page limit ordered of
        Inl e \<Rightarrow> Inl e
      | Inr rows \<Rightarrow> Inr (map (feed_select cutoff) rows))"

section \<open>Example data\<close>

text \<open>
  The actors and rows of the scenarios: a company \<open>co1\<close> with a candidate-seeking post
  \<open>p1\<close> created at time 0, a candidate \<open>c1\<close> who follows \<open>co1\<close>, a candidate \<open>c2\<close>
  with an active CV \<open>v1\<close>, and a second company \<open>co2\<close>.
\<close>

definition co1 :: user where
  "co1 = \<lparr>u_id = 1, u_account_type = ''company''\<rparr>"

definition c1 :: user where
  "c1 = \<lparr>u_id = 2, u_account_type = ''candidate''\<rparr>"

definition c2 :: user where
  "c2 = \<lparr>u_id = 3, u_account_type = ''candidate''\<rparr>"

definition co2 :: user where
  "co2 = \<lparr>u_id = 4, u_account_type = ''company''\<rparr>"

definition v1 :: cv where
  "v1 = \<lparr>c_id = 1, c_user_id = 3, c_is_active = True\<rparr>"

definition p1 :: post where
  "p1 = \<lparr>p_id = 1, p_user_id = 1, p_post_type = ''find_candidate'', p_title = ''P1'',
          p_description = ''backend developer'', p_attached_cv_id = None,
          p_created_at = 0, p_updated_at = 0\<rparr>"

definition store0 :: store where
  "store0 = \<lparr>users = [co1, c1, c2, co2], cvs = [v1], posts = [p1],
              follows = [\<lparr>follower_id = 2, following_id = 1\<rparr>], applications = [],
              post_seq = 2, application_seq = 1\<rparr>"

text \<open>The application of \<open>c2\<close> to \<open>p1\<close>, once pending and once accepted.\<close>

definition a1 :: application where
  "a1 = \<lparr>a_id = 1, a_post_id = 1, a_cv_id = 1, a_applicant_id = 3, a_status = ''pending'',
          a_created_at = 0\<rparr>"

definition a1_accepted :: application where
  "a1_accepted = a1\<lparr>a_status := ''accepted''\<rparr>"

definition store_pending :: store where
  "store_pending = store0\<lparr>applications := [a1], application_seq := 2\<rparr>"

definition store_accepted :: store where
  "store_accepted = store0\<lparr>applications := [a1_accepted], application_seq := 2\<rparr>"

text \<open>
  Two candidate-seeking posts of two companies created in the same millisecond, seen by
  \<open>c2\<close>, who follows nobody: the rows \<open>j2\<close> and \<open>j3\<close> of the feed query agree on all three
  keys of the ORDER BY clause.
\<close>

definition p2 :: post where
  "p2 = \<lparr>p_id = 2, p_user_id = 1, p_post_type = ''find_candidate'', p_title = ''P2'',
          p_description = ''tester'', p_attached_cv_id = None,
          p_created_at = 100, p_updated_at = 100\<rparr>"

definition p3 :: post where
  "p3 = \<lparr>p_id = 3, p_user_id = 4, p_post_type = ''find_candidate'', p_title = ''P3'',
          p_description = ''designer'', p_attached_cv_id = None,
          p_created_at = 100, p_updated_at = 100\<rparr>"

definition store_ties :: store where
  "store_ties = store0\<lparr>posts := [p2, p3], post_seq := 4\<rparr>"

definition j2 :: joined where
  "j2 = (p2, co1, None, None)"

definition j3 :: joined where
  "j3 = (p3, co2, None, None)"

text \<open>
  The scenario of the expired post: \<open>p1\<close> of the followed company \<open>co1\<close> next to the
  later post \<open>p3\<close> of \<open>co2\<close>, in the feed of \<open>c1\<close>.
\<close>

definition store_feed :: store where
  "store_feed = store0\<lparr>posts := [p1, p3], post_seq := 4\<rparr>"

definition j1 :: joined where
  "j1 = (p1, co1, None, Some \<lparr>follower_id = 2, following_id = 1\<rparr>)"

section \<open>Predicates of the claims\<close>

text \<open>The actor owns the post to which the application refers.\<close>

definition owns_post_of :: "store \<Rightarrow> user \<Rightarrow> application \<Rightarrow> bool" where
  "owns_post_of st actor a =
     (\<exists>p \<in> set (posts st). a_post_id a = p_id p \<and> p_user_id p = u_id actor)"

text \<open>The CV exists, is active and belongs to the actor.\<close>

definition usable_cv :: "store \<Rightarrow> user \<Rightarrow> nat \<Rightarrow> bool" where
  "usable_cv st actor cv_id =
     (\<exists>c \<in> set (cvs st). c_id c = cv_id \<and> c_user_id c = u_id actor \<and> c_is_active c)"

text \<open>The rows of the applications table for a (post, applicant) pair.\<close>

definition applications_of :: "store \<Rightarrow> nat \<Rightarrow> nat \<Rightarrow> application list" where
  "applications_of st post_id applicant =
     filter (\<lambda>a. a_post_id a = post_id \<and> a_applicant_id a = applicant) (applications st)"

text \<open>The two buckets of a returned feed row, read off its computed columns.\<close>

definition row_expiration_bucket :: "feed_row \<Rightarrow> nat" where
  "row_expiration_bucket r = (if r_is_expired r then 1 else 0)"

definition row_follow_bucket :: "feed_row \<Rightarrow> nat" where
  "row_follow_bucket r = (if r_is_following_author r then 0 else 1)"

section \<open>Auxiliary facts\<close>

lemmas example_defs =
  co1_def c1_def c2_def co2_def v1_def p1_def store0_def a1_def a1_accepted_def
  store_pending_def store_accepted_def p2_def p3_def store_ties_def j2_def j3_def
  store_feed_def j1_def

lemma same_key_same_row:
  "distinct (map f xs) \<Longrightarrow> a \<in> set xs \<Longrightarrow> x \<in> set xs \<Longrightarrow> f x = f a \<Longrightarrow> x = a"
  by (meson distinct_map inj_on_def)

lemma filter_by_key:
  "distinct (map f xs) \<Longrightarrow> a \<in> set xs \<Longrightarrow> filter (\<lambda>x. f x = f a) xs = [a]"
proof (induction xs)
  case Nil
  then show ?case by simp
next
  case (Cons y ys)
  show ?case
  proof (cases "y = a")
    case True
    with Cons.prems have "f a \<notin> f ` set ys" by simp
    then have "\<forall>x \<in> set ys. f x \<noteq> f a" by (metis imageI)
    then have "filter (\<lambda>x. f x = f a) ys = []" by (simp add: filter_empty_conv)
    with True show ?thesis by simp
  next
    case False
    with Cons.prems have "a \<in> set ys" and "f y \<noteq> f a" by auto
    with Cons show ?thesis by simp
  qed
qed

lemma filter_status_target:
  assumes "distinct (map a_id (applications st))" and "a \<in> set (applications st)"
  shows "filter (status_target st actor (a_id a)) (applications st) =
         (if owns_post_of st actor a then [a] else [])"
proof -
  have "filter (status_target st actor (a_id a)) (applications st) =
        filter (\<lambda>x. owns_post_of st actor a \<and> a_id x = a_id a) (applications st)"
    using same_key_same_row[OF assms]
    by (intro filter_cong refl) (auto simp: status_target_def owns_post_of_def)
  then show ?thesis
    using filter_by_key[OF assms] by simp
qed

lemma map_status_target:
  assumes "distinct (map a_id (applications st))" and "a \<in> set (applications st)"
    and "owns_post_of st actor a"
  shows "map (\<lambda>x. if status_target st actor (a_id a) x then x\<lparr>a_status := s\<rparr> else x)
           (applications st) =
         map (\<lambda>x. if x = a then x\<lparr>a_status := s\<rparr> else x) (applications st)"
  using same_key_same_row[OF assms(1,2)] assms(3)
  by (intro map_cong refl) (auto simp: status_target_def owns_post_of_def)

lemma usable_cv_filter:
  "(filter (\<lambda>c. c_id c = cv_id \<and> c_user_id c = u_id actor \<and> c_is_active c) (cvs st) = [])
     = (\<not> usable_cv st actor cv_id)"
  by (auto simp: usable_cv_def filter_empty_conv)

lemma filter_post_absent:
  "post_id \<notin> p_id ` set (posts st) \<Longrightarrow> filter (\<lambda>p. p_id p = post_id) (posts st) = []"
  by (auto simp: filter_empty_conv)

lemma apply_post_success:
  assumes "apply_post st actor post_id cv_id now = (Inr a, st')"
  shows "u_account_type actor = ''candidate''"
    and "\<exists>p ps. filter (\<lambda>p. p_id p = post_id) (posts st) = p # ps \<and>
           p_post_type p = ''find_candidate'' \<and> \<not> isExpired now p"
    and "usable_cv st actor cv_id"
    and "applications_of st post_id (u_id actor) = []"
    and "a = \<lparr>a_id = application_seq st, a_post_id = post_id, a_cv_id = cv_id,
               a_applicant_id = u_id actor, a_status = ''pending'',
                    a_created_at = now\<rparr>"
    and "st' = st\<lparr>applications := applications st @ [a],
                   application_seq := Suc (application_seq st)\<rparr>"
  using assms
  by (auto simp: apply_post_def usable_cv_filter applications_of_def default_status_def Let_def
      split: if_splits list.splits)

lemma filter_not_owned:
  "\<forall>p \<in> set (posts st). p_id p = post_id \<longrightarrow> p_user_id p \<noteq> u_id actor \<Longrightarrow>
   filter (\<lambda>p. p_id p = post_id \<and> p_user_id p = u_id actor) (posts st) = []"
  by (auto simp: filter_empty_conv)

lemma feed_key_select:
  "feed_key cutoff j =
     (row_expiration_bucket (feed_select cutoff j), row_follow_bucket (feed_select cutoff j),
      - p_created_at (r_post (feed_select cutoff j)))"
  by (cases j)
    (simp add: row_expiration_bucket_def row_follow_bucket_def expiration_bucket_def
      follow_bucket_def is_expired_def)

lemma paginate_sorted:
  assumes "sorted (map key res)" and "paginate page limit res = Inr rows"
  shows "sorted (map key rows)"
proof -
  from assms(2) have "rows = take (nat limit) (drop (nat ((page - 1) * limit)) res)"
    by (auto simp: paginate_def Let_def split: if_splits)
  then have "map key rows = take (nat limit) (drop (nat ((page - 1) * limit)) (map key res))"
    by (simp add: take_map drop_map)
  with assms(1) show ?thesis
    by (simp add: sorted_wrt_take sorted_wrt_drop)
qed

lemma feed_join_store_ties: "feed_join store_ties 3 None = [j2, j3]"
  by (simp add: feed_join_def left_join_def example_defs)

lemma feed_key_ties: "feed_key 50 j2 = (0, 1, -100)" "feed_key 50 j3 = (0, 1, -100)"
  by (simp_all add: example_defs expiration_bucket_def follow_bucket_def)

lemma feed_join_store_feed: "feed_join store_feed 2 None = [j1, j3]"
  by (simp add: feed_join_def left_join_def example_defs)

lemma feed_key_feed:
  "feed_key 50 j1 = (1, 0, 0)" "feed_key 50 j3 = (0, 1, -100)"
  by (simp_all add: example_defs expiration_bucket_def follow_bucket_def)

lemma get_post_row:
  assumes "get_post st post_id cutoff = Inr r"
  shows "r_is_expired r = is_expired cutoff (r_post r)"
proof -
  let ?rows = "[\<lparr>r_post = p, r_author = u, r_cv = c, r_is_expired = is_expired cutoff p\<rparr>.
              p \<leftarrow> posts st,
              u \<leftarrow> filter (\<lambda>u. u_id u = p_user_id p) (users st),
              c \<leftarrow> left_join (filter (\<lambda>c. Some (c_id c) = p_attached_cv_id p) (cvs st)),
              p_id p = post_id]"
  from assms obtain rs where "?rows = r # rs"
    by (auto simp: get_post_def split: list.splits)
  then have "r \<in> set ?rows" by simp
  then show ?thesis by auto
qed

section \<open>Status updates\<close>

text \<open>
  C1 (as amended). The handler has no transition table: whatever the current status of an
  application is, the terminal statuses \<open>accepted\<close> and \<open>rejected\<close> included, a status update
  to one of the four values succeeds for the owner of the referenced post and writes the
  new status; for every other actor it fails with \<open>NotFoundOrUnauthorizedError\<close>;
  \<open>InvalidStatusError\<close> is the answer only to a value outside the four. So a pending
  application can be moved to reviewed, accepted or rejected by the owning company and by
  nobody else.
\<close>

theorem updateStatus_any_current_status:
  assumes "distinct (map a_id (applications st))" and "a \<in> set (applications st)"
  shows "updateStatus st actor (a_id a) status =
     (if status \<notin> set validStatuses then (Inl InvalidStatusError, st)
      else if owns_post_of st actor a
        then (Inr (a\<lparr>a_status := status\<rparr>),
              st\<lparr>applications :=
                   map (\<lambda>x. if x = a then x\<lparr>a_status := status\<rparr> else x) (applications st)\<rparr>)
      else (Inl NotFoundOrUnauthorizedError, st))"
  using filter_status_target[OF assms, of actor] map_status_target[OF assms, of actor status]
  by (simp add: updateStatus_def)

text \<open>
  The theorem at the accepted application of the example, for its owner \<open>co1\<close> (the update
  to \<open>rejected\<close> goes through) and for the other company \<open>co2\<close>.
\<close>

theorem updateStatus_any_current_status_witness:
  "distinct (map a_id (applications store_accepted)) \<and>
   a1_accepted \<in> set (applications store_accepted) \<and>
   a_status a1_accepted = ''accepted'' \<and>
   updateStatus store_accepted co1 (a_id a1_accepted) ''rejected'' =
     (Inr (a1_accepted\<lparr>a_status := ''rejected''\<rparr>),
      store_accepted\<lparr>applications := [a1_accepted\<lparr>a_status := ''rejected''\<rparr>]\<rparr>) \<and>
   updateStatus store_accepted co2 (a_id a1_accepted) ''rejected'' =
     (Inl NotFoundOrUnauthorizedError, store_accepted)"
proof -
  have d: "distinct (map a_id (applications store_accepted))"
    and m: "a1_accepted \<in> set (applications store_accepted)"
    by (simp_all add: example_defs)
  show ?thesis
    using d m
      updateStatus_any_current_status[OF d m, of co1 "''rejected''"]
      updateStatus_any_current_status[OF d m, of co2 "''rejected''"]
    by (simp add: example_defs owns_post_of_def validStatuses_def)
qed

text \<open>
  C1 as stated fails: the accepted application of the example is moved back to \<open>reviewed\<close>
  by the company that owns the post.
\<close>

theorem updateStatus_terminal_counterexample:
  "a_status a1_accepted = ''accepted'' \<and>
   updateStatus store_accepted co1 1 ''reviewed'' =
     (Inr (a1_accepted\<lparr>a_status := ''reviewed''\<rparr>),
      store_accepted\<lparr>applications := [a1_accepted\<lparr>a_status := ''reviewed''\<rparr>]\<rparr>) \<and>
   fst (updateStatus store_accepted co1 1 ''reviewed'') \<noteq> Inl InvalidStatusError"
  by (simp add: example_defs updateStatus_def status_target_def validStatuses_def)

text \<open>
  C10. An update to the status that the application already has succeeds for the owner of
  the post: the answer is the application as it was, and the store is unchanged.
\<close>

theorem updateStatus_same_status:
  assumes "distinct (map a_id (applications st))" and "a \<in> set (applications st)"
    and "owns_post_of st actor a" and "a_status a \<in> set validStatuses"
  shows "updateStatus st actor (a_id a) (a_status a) = (Inr a, st)"
proof -
  have "map (\<lambda>x. if x = a then x\<lparr>a_status := a_status a\<rparr> else x) (applications st)
        = applications st"
    by (induction "applications st") (auto simp: map_idI)
  then show ?thesis
    using filter_status_target[OF assms(1,2), of actor]
      map_status_target[OF assms(1-3), of "a_status a"] assms(3,4)
    by (simp add: updateStatus_def)
qed

theorem updateStatus_same_status_witness:
  "distinct (map a_id (applications store_pending)) \<and>
   a1 \<in> set (applications store_pending) \<and>
   owns_post_of store_pending co1 a1 \<and>
   a_status a1 = ''pending'' \<and> a_status a1 \<in> set validStatuses \<and>
   updateStatus store_pending co1 (a_id a1) (a_status a1) = (Inr a1, store_pending)"
proof -
  have d: "distinct (map a_id (applications store_pending))"
    and m: "a1 \<in> set (applications store_pending)"
    and ow: "owns_post_of store_pending co1 a1"
    and v: "a_status a1 \<in> set validStatuses"
    by (simp_all add: example_defs owns_post_of_def validStatuses_def)
  show ?thesis
    using d m ow v updateStatus_same_status[OF d m ow v]
    by (simp add: a1_def)
qed

section \<open>Applying to a post\<close>

text \<open>
  C5. The checks of the apply handler in their order, over a posts table with unique ids:
  \<open>ForbiddenError\<close> for an actor who is not a candidate, \<open>NotFoundError\<close> for an absent
  post, \<open>InvalidPostTypeError\<close> for a post that is not \<open>find_candidate\<close>,
  \<open>ExpiredPostError\<close> when the guard \<open>isExpired\<close> holds at the instant of the request,
  \<open>InvalidCvError\<close> when the CV is not an active CV of the applicant,
  \<open>DuplicateApplicationError\<close> when the pair already has an application. A refused request
  leaves the store as it was. When no check fires, exactly one row is appended to the
  applications, in status \<open>pending\<close>.
\<close>

theorem apply_post_outcomes:
  "(post_id \<notin> p_id ` set (posts st) \<longrightarrow>
      apply_post st actor post_id cv_id now =
        (if u_account_type actor \<noteq> ''candidate'' then (Inl ForbiddenError, st)
         else (Inl NotFoundError, st))) \<and>
   (distinct (map p_id (posts st)) \<and> p \<in> set (posts st) \<longrightarrow>
      apply_post st actor (p_id p) cv_id now =
        (if u_account_type actor \<noteq> ''candidate'' then (Inl ForbiddenError, st)
         else if p_post_type p \<noteq> ''find_candidate'' then (Inl InvalidPostTypeError, st)
         else if isExpired now p then (Inl ExpiredPostError, st)
         else if \<not> usable_cv st actor cv_id then (Inl InvalidCvError, st)
         else if applications_of st (p_id p) (u_id actor) \<noteq> []
           then (Inl DuplicateApplicationError, st)
         else (Inr \<lparr>a_id = application_seq st, a_post_id = p_id p, a_cv_id = cv_id,
                    a_applicant_id = u_id actor, a_status = ''pending'',
                    a_created_at = now\<rparr>,
               st\<lparr>applications := applications st @
                     [\<lparr>a_id = application_seq st, a_post_id = p_id p, a_cv_id = cv_id,
                       a_applicant_id = u_id actor, a_status = ''pending'',
                    a_created_at = now\<rparr>],
                   application_seq := Suc (application_seq st)\<rparr>)))"
proof (intro conjI impI)
  assume "post_id \<notin> p_id ` set (posts st)"
  then show "apply_post st actor post_id cv_id now =
        (if u_account_type actor \<noteq> ''candidate'' then (Inl ForbiddenError, st)
         else (Inl NotFoundError, st))"
    by (simp add: apply_post_def filter_post_absent)
next
  assume "distinct (map p_id (posts st)) \<and> p \<in> set (posts st)"
  then have "filter (\<lambda>q. p_id q = p_id p) (posts st) = [p]"
    by (simp add: filter_by_key)
  then show "apply_post st actor (p_id p) cv_id now =
        (if u_account_type actor \<noteq> ''candidate'' then (Inl ForbiddenError, st)
         else if p_post_type p \<noteq> ''find_candidate'' then (Inl InvalidPostTypeError, st)
         else if isExpired now p then (Inl ExpiredPostError, st)
         else if \<not> usable_cv st actor cv_id then (Inl InvalidCvError, st)
         else if applications_of st (p_id p) (u_id actor) \<noteq> []
           then (Inl DuplicateApplicationError, st)
         else (Inr \<lparr>a_id = application_seq st, a_post_id = p_id p, a_cv_id = cv_id,
                    a_applicant_id = u_id actor, a_status = ''pending'',
                    a_created_at = now\<rparr>,
               st\<lparr>applications := applications st @
                     [\<lparr>a_id = application_seq st, a_post_id = p_id p, a_cv_id = cv_id,
                       a_applicant_id = u_id actor, a_status = ''pending'',
                    a_created_at = now\<rparr>],
                   application_seq := Suc (application_seq st)\<rparr>))"
    by (simp add: apply_post_def usable_cv_filter applications_of_def default_status_def Let_def)
qed

theorem apply_post_outcomes_witness:
  "5 \<notin> p_id ` set (posts store0) \<and>
   apply_post store0 co1 5 1 0 = (Inl ForbiddenError, store0) \<and>
   apply_post store0 c2 5 1 0 = (Inl NotFoundError, store0) \<and>
   distinct (map p_id (posts store0)) \<and> p1 \<in> set (posts store0) \<and>
   apply_post store0 c2 (p_id p1) 1 (ten_days + 1) = (Inl ExpiredPostError, store0) \<and>
   apply_post store0 c1 (p_id p1) 1 0 = (Inl InvalidCvError, store0) \<and>
   apply_post store_pending c2 (p_id p1) 1 0 = (Inl DuplicateApplicationError, store_pending) \<and>
   apply_post store0 c2 (p_id p1) 1 0 = (Inr a1, store_pending)"
proof -
  have ab: "5 \<notin> p_id ` set (posts store0)"
    and d: "distinct (map p_id (posts store0)) \<and> p1 \<in> set (posts store0)"
    and d': "distinct (map p_id (posts store_pending)) \<and> p1 \<in> set (posts store_pending)"
    by (simp_all add: example_defs)
  note out = apply_post_outcomes[THEN conjunct1, rule_format]
    apply_post_outcomes[THEN conjunct2, rule_format]
  show ?thesis
    using ab d out(1)[OF ab, of co1 1 0] out(1)[OF ab, of c2 1 0]
      out(2)[OF d, of c2 1 "ten_days + 1"] out(2)[OF d, of c1 1 0]
      out(2)[OF d', of c2 1 0] out(2)[OF d, of c2 1 0]
    by (simp add: example_defs isExpired_def usable_cv_def applications_of_def ten_days_def)
qed

text \<open>
  C4 (as amended). When the first of two requests of an applicant for a post succeeds, the
  pair has exactly one row afterwards, and a second request never succeeds and leaves the
  store as it was: it is answered with \<open>ExpiredPostError\<close> when the post has expired by
  then, with \<open>InvalidCvError\<close> when the post has not expired and the CV that the request
  names is not usable, and with \<open>DuplicateApplicationError\<close> otherwise. A first request that
  is refused leaves the store as it was, so it creates no row.
\<close>

theorem apply_twice:
  "(distinct (map p_id (posts st)) \<and> p \<in> set (posts st) \<and>
    apply_post st actor (p_id p) cv_id now = (Inr a, st') \<longrightarrow>
      applications_of st' (p_id p) (u_id actor) = [a] \<and>
      apply_post st' actor (p_id p) cv_id' now' =
        (if isExpired now' p then (Inl ExpiredPostError, st')
         else if \<not> usable_cv st' actor cv_id' then (Inl InvalidCvError, st')
         else (Inl DuplicateApplicationError, st'))) \<and>
   (fst (apply_post st actor post_id cv_id now) = Inl e \<longrightarrow>
      snd (apply_post st actor post_id cv_id now) = st)"
proof (intro conjI impI)
  assume h: "distinct (map p_id (posts st)) \<and> p \<in> set (posts st) \<and>
    apply_post st actor (p_id p) cv_id now = (Inr a, st')"
  then have first: "apply_post st actor (p_id p) cv_id now = (Inr a, st')" by simp
  note s = apply_post_success[OF first]
  from h have fp: "filter (\<lambda>q. p_id q = p_id p) (posts st) = [p]"
    by (simp add: filter_by_key)
  with s(2) have ty: "p_post_type p = ''find_candidate''" by simp
  have same: "posts st' = posts st" "cvs st' = cvs st" by (simp_all add: s(6))
  show apps: "applications_of st' (p_id p) (u_id actor) = [a]"
    using s(4) by (simp add: s(6) s(5) applications_of_def)
  show "apply_post st' actor (p_id p) cv_id' now' =
        (if isExpired now' p then (Inl ExpiredPostError, st')
         else if \<not> usable_cv st' actor cv_id' then (Inl InvalidCvError, st')
         else (Inl DuplicateApplicationError, st'))"
    using apps fp ty s(1)
    by (simp add: apply_post_def same(1) usable_cv_filter applications_of_def)
next
  assume "fst (apply_post st actor post_id cv_id now) = Inl e"
  then show "snd (apply_post st actor post_id cv_id now) = st"
    by (auto simp: apply_post_def Let_def split: if_splits list.splits)
qed

text \<open>
  The theorem at the application of \<open>c2\<close> to \<open>p1\<close> at time 0: the same request a little
  later, the request with a CV that does not exist, the request after the post has
  expired, and a refused first request.
\<close>

theorem apply_twice_witness:
  "distinct (map p_id (posts store0)) \<and> p1 \<in> set (posts store0) \<and>
   apply_post store0 c2 (p_id p1) 1 0 = (Inr a1, store_pending) \<and>
   applications_of store_pending (p_id p1) (u_id c2) = [a1] \<and>
   apply_post store_pending c2 (p_id p1) 1 5000 =
     (Inl DuplicateApplicationError, store_pending) \<and>
   apply_post store_pending c2 (p_id p1) 9 5000 = (Inl InvalidCvError, store_pending) \<and>
   apply_post store_pending c2 (p_id p1) 1 (ten_days + 1) =
     (Inl ExpiredPostError, store_pending) \<and>
   fst (apply_post store0 co1 1 1 0) = Inl ForbiddenError \<and>
   snd (apply_post store0 co1 1 1 0) = store0"
proof -
  have h: "distinct (map p_id (posts store0)) \<and> p1 \<in> set (posts store0) \<and>
      apply_post store0 c2 (p_id p1) 1 0 = (Inr a1, store_pending)"
    by (simp add: example_defs apply_post_def isExpired_def ten_days_def default_status_def
        Let_def numeral_2_eq_2)
  have r: "fst (apply_post store0 co1 1 1 0) = Inl ForbiddenError"
    by (simp add: example_defs apply_post_def)
  have e: "\<not> isExpired 5000 p1" "isExpired (ten_days + 1) p1"
    "usable_cv store_pending c2 1" "\<not> usable_cv store_pending c2 9"
    by (simp_all add: example_defs isExpired_def ten_days_def usable_cv_def)
  note t = apply_twice[THEN conjunct1, THEN mp, OF h] apply_twice[THEN conjunct2, THEN mp, OF r]
  show ?thesis
    using h r e t(1)[of 1 5000] t(1)[of 9 5000] t(1)[of 1 "ten_days + 1"] t(2)
    by simp
qed

text \<open>
  C4 as stated fails: \<open>c2\<close> applies to \<open>p1\<close> at time 0 and sends the same request again
  when the post has expired; the second request is answered with \<open>ExpiredPostError\<close>,
  not with \<open>DuplicateApplicationError\<close>.
\<close>

theorem apply_twice_expired_counterexample:
  "apply_post store0 c2 1 1 0 = (Inr a1, store_pending) \<and>
   apply_post store_pending c2 1 1 (ten_days + 1) = (Inl ExpiredPostError, store_pending)"
  by (simp add: example_defs apply_post_def isExpired_def ten_days_def default_status_def
      Let_def numeral_2_eq_2)

section \<open>Creating posts\<close>

text \<open>
  C6. The four combinations of account type and post type: a candidate is refused a
  \<open>find_candidate\<close> post and a company a \<open>find_job\<close> post, both with
  \<open>InvalidPostTypeError\<close>; a candidate's \<open>find_job\<close> post without a CV is refused with
  \<open>MissingCvError\<close> and is created otherwise; a company's \<open>find_candidate\<close> post is
  created.
\<close>

theorem create_post_type_matrix:
  "(u_account_type actor = ''candidate'' \<longrightarrow>
      create_post st actor ''find_candidate'' title description cv now =
        (Inl InvalidPostTypeError, st) \<and>
      create_post st actor ''find_job'' title description cv now =
        (if falsy cv then (Inl MissingCvError, st)
         else (Inr \<lparr>p_id = post_seq st, p_user_id = u_id actor, p_post_type = ''find_job'',
                    p_title = title, p_description = description, p_attached_cv_id = cv,
                    p_created_at = now, p_updated_at = now\<rparr>,
               st\<lparr>posts := posts st @
                     [\<lparr>p_id = post_seq st, p_user_id = u_id actor, p_post_type = ''find_job'',
                       p_title = title, p_description = description, p_attached_cv_id = cv,
                       p_created_at = now, p_updated_at = now\<rparr>],
                   post_seq := Suc (post_seq st)\<rparr>))) \<and>
   (u_account_type actor = ''company'' \<longrightarrow>
      create_post st actor ''find_job'' title description cv now =
        (Inl InvalidPostTypeError, st) \<and>
      fst (create_post st actor ''find_candidate'' title description cv now) =
        Inr \<lparr>p_id = post_seq st, p_user_id = u_id actor, p_post_type = ''find_candidate'',
             p_title = title, p_description = description, p_attached_cv_id = or_null cv,
             p_created_at = now, p_updated_at = now\<rparr>)"
  by (simp add: create_post_def or_null_def Let_def)

theorem create_post_type_matrix_witness:
  "u_account_type c2 = ''candidate'' \<and> u_account_type co1 = ''company'' \<and>
   create_post store0 c2 ''find_candidate'' ''T'' ''D'' None 7 = (Inl InvalidPostTypeError, store0) \<and>
   create_post store0 c2 ''find_job'' ''T'' ''D'' None 7 = (Inl MissingCvError, store0) \<and>
   fst (create_post store0 c2 ''find_job'' ''T'' ''D'' (Some 1) 7) =
     Inr \<lparr>p_id = 2, p_user_id = 3, p_post_type = ''find_job'', p_title = ''T'',
          p_description = ''D'', p_attached_cv_id = Some 1, p_created_at = 7,
          p_updated_at = 7\<rparr> \<and>
   create_post store0 co1 ''find_job'' ''T'' ''D'' (Some 1) 7 = (Inl InvalidPostTypeError, store0) \<and>
   fst (create_post store0 co1 ''find_candidate'' ''T'' ''D'' None 7) =
     Inr \<lparr>p_id = 2, p_user_id = 1, p_post_type = ''find_candidate'', p_title = ''T'',
          p_description = ''D'', p_attached_cv_id = None, p_created_at = 7,
          p_updated_at = 7\<rparr>"
proof -
  have a: "u_account_type c2 = ''candidate''" and b: "u_account_type co1 = ''company''"
    by (simp_all add: example_defs)
  note m = create_post_type_matrix[THEN conjunct1, rule_format]
    create_post_type_matrix[THEN conjunct2, rule_format]
  show ?thesis
    using a b m(1)[OF a, of store0 "''T''" "''D''" None 7]
      m(1)[OF a, of store0 "''T''" "''D''" "Some 1" 7]
      m(2)[OF b, of store0 "''T''" "''D''" "Some 1" 7]
      m(2)[OF b, of store0 "''T''" "''D''" None 7]
    by (simp add: falsy_def or_null_def) (simp add: example_defs)
qed

text \<open>
  C8 (as amended). Creation neither refuses nor drops a CV id that comes with a
  \<open>find_candidate\<close> post: the post is stored with that id, and without one only when the
  request carried none (an absent, null or zero value). The one rule about CVs is that of
  \<open>find_job\<close> posts, which are always created with the CV of the request.
\<close>

theorem create_post_keeps_cv:
  "(u_account_type actor = ''company'' \<longrightarrow>
      create_post st actor ''find_candidate'' title description cv now =
        (Inr \<lparr>p_id = post_seq st, p_user_id = u_id actor, p_post_type = ''find_candidate'',
              p_title = title, p_description = description,
              p_attached_cv_id = (if falsy cv then None else cv),
              p_created_at = now, p_updated_at = now\<rparr>,
         st\<lparr>posts := posts st @
               [\<lparr>p_id = post_seq st, p_user_id = u_id actor, p_post_type = ''find_candidate'',
                 p_title = title, p_description = description,
                 p_attached_cv_id = (if falsy cv then None else cv),
                 p_created_at = now, p_updated_at = now\<rparr>],
             post_seq := Suc (post_seq st)\<rparr>)) \<and>
   (create_post st actor ''find_job'' title description cv now = (Inr p, st') \<longrightarrow>
      p_attached_cv_id p = cv \<and> cv \<noteq> None)"
  by (auto simp: create_post_def or_null_def Let_def falsy_def split: if_splits option.splits)

theorem create_post_keeps_cv_witness:
  "u_account_type co1 = ''company'' \<and>
   fst (create_post store0 co1 ''find_candidate'' ''T'' ''D'' (Some 1) 7) =
     Inr \<lparr>p_id = 2, p_user_id = 1, p_post_type = ''find_candidate'', p_title = ''T'',
          p_description = ''D'', p_attached_cv_id = Some 1, p_created_at = 7,
          p_updated_at = 7\<rparr> \<and>
   create_post store0 c2 ''find_job'' ''T'' ''D'' (Some 1) 7 =
     (Inr \<lparr>p_id = 2, p_user_id = 3, p_post_type = ''find_job'', p_title = ''T'',
          p_description = ''D'', p_attached_cv_id = Some 1, p_created_at = 7,
          p_updated_at = 7\<rparr>,
      store0\<lparr>posts := [p1, \<lparr>p_id = 2, p_user_id = 3, p_post_type = ''find_job'', p_title = ''T'',
          p_description = ''D'', p_attached_cv_id = Some 1, p_created_at = 7,
          p_updated_at = 7\<rparr>], post_seq := 3\<rparr>) \<and>
   p_attached_cv_id \<lparr>p_id = 2, p_user_id = 3, p_post_type = ''find_job'', p_title = ''T'',
          p_description = ''D'', p_attached_cv_id = Some 1, p_created_at = 7,
          p_updated_at = 7\<rparr> = Some 1"
proof -
  have b: "u_account_type co1 = ''company''"
    by (simp add: example_defs)
  have c: "create_post store0 c2 ''find_job'' ''T'' ''D'' (Some 1) 7 =
     (Inr \<lparr>p_id = 2, p_user_id = 3, p_post_type = ''find_job'', p_title = ''T'',
          p_description = ''D'', p_attached_cv_id = Some 1, p_created_at = 7,
          p_updated_at = 7\<rparr>,
      store0\<lparr>posts := [p1, \<lparr>p_id = 2, p_user_id = 3, p_post_type = ''find_job'', p_title = ''T'',
          p_description = ''D'', p_attached_cv_id = Some 1, p_created_at = 7,
          p_updated_at = 7\<rparr>], post_seq := 3\<rparr>)"
    by (simp add: example_defs create_post_def falsy_def or_null_def Let_def eval_nat_numeral)
  note k = create_post_keeps_cv[THEN conjunct1, rule_format]
    create_post_keeps_cv[THEN conjunct2, rule_format]
  show ?thesis
    using b c k(1)[OF b, of store0 "''T''" "''D''" "Some 1" 7] k(2)[OF c]
    by (simp add: falsy_def) (simp add: example_defs)
qed

text \<open>
  C8 as stated fails: the company \<open>co1\<close> creates a \<open>find_candidate\<close> post with the
  existing CV 1 attached, and the stored post keeps it.
\<close>

theorem find_candidate_with_cv_counterexample:
  "fst (create_post store0 co1 ''find_candidate'' ''T'' ''D'' (Some 1) 7) =
     Inr \<lparr>p_id = 2, p_user_id = 1, p_post_type = ''find_candidate'', p_title = ''T'',
          p_description = ''D'', p_attached_cv_id = Some 1, p_created_at = 7,
          p_updated_at = 7\<rparr> \<and>
   posts (snd (create_post store0 co1 ''find_candidate'' ''T'' ''D'' (Some 1) 7)) =
     [p1, \<lparr>p_id = 2, p_user_id = 1, p_post_type = ''find_candidate'', p_title = ''T'',
           p_description = ''D'', p_attached_cv_id = Some 1, p_created_at = 7,
           p_updated_at = 7\<rparr>]"
  by (simp add: example_defs create_post_def falsy_def or_null_def Let_def)

section \<open>Ownership failures\<close>

text \<open>
  C9 (as amended). Updating or deleting a post that the actor does not own, and updating
  the status of an application whose post the actor does not own, are answered with
  \<open>NotFoundOrUnauthorizedError\<close> (404). Listing the applications of a post is answered
  with \<open>NotFoundError\<close> (404) exactly when the post is absent; when the post exists, the
  listing is answered with \<open>NotAuthorizedError\<close> (403) for every actor but the owner, and
  with the rows for the owner.
\<close>

theorem ownership_failures:
  "((\<forall>p \<in> set (posts st). p_id p = post_id \<longrightarrow> p_user_id p \<noteq> u_id actor) \<longrightarrow>
      update_post st actor post_id title description cv now =
        (Inl NotFoundOrUnauthorizedError, st) \<and>
      delete_post st actor post_id = (Inl NotFoundOrUnauthorizedError, st)) \<and>
   (status \<in> set validStatuses \<and>
    (\<forall>a \<in> set (applications st). a_id a = app_id \<longrightarrow> \<not> owns_post_of st actor a) \<longrightarrow>
      updateStatus st actor app_id status = (Inl NotFoundOrUnauthorizedError, st)) \<and>
   (listForPost st actor post_id ordered = Inl NotFoundError) =
     (post_id \<notin> p_id ` set (posts st)) \<and>
   (distinct (map p_id (posts st)) \<and> p \<in> set (posts st) \<longrightarrow>
      listForPost st actor (p_id p) ordered =
        (if p_user_id p \<noteq> u_id actor then Inl NotAuthorizedError else Inr ordered)) \<and>
   http_status NotFoundOrUnauthorizedError = 404 \<and>
   http_status NotFoundError = 404 \<and>
   http_status NotAuthorizedError = 403"
proof (intro conjI impI)
  assume "\<forall>p \<in> set (posts st). p_id p = post_id \<longrightarrow> p_user_id p \<noteq> u_id actor"
  then have e: "filter (\<lambda>p. p_id p = post_id \<and> p_user_id p = u_id actor) (posts st) = []"
    by (rule filter_not_owned)
  show "update_post st actor post_id title description cv now =
        (Inl NotFoundOrUnauthorizedError, st)"
    by (simp add: update_post_def e)
  show "delete_post st actor post_id = (Inl NotFoundOrUnauthorizedError, st)"
    by (simp add: delete_post_def e)
next
  assume h: "status \<in> set validStatuses \<and>
    (\<forall>a \<in> set (applications st). a_id a = app_id \<longrightarrow> \<not> owns_post_of st actor a)"
  then have "filter (status_target st actor app_id) (applications st) = []"
    by (auto simp: filter_empty_conv status_target_def owns_post_of_def)
  with h show "updateStatus st actor app_id status = (Inl NotFoundOrUnauthorizedError, st)"
    by (simp add: updateStatus_def)
next
  show "(listForPost st actor post_id ordered = Inl NotFoundError) =
     (post_id \<notin> p_id ` set (posts st))"
  proof (cases "filter (\<lambda>p. p_id p = post_id) (posts st)")
    case Nil
    then have "post_id \<notin> p_id ` set (posts st)"
      by (auto simp: filter_empty_conv)
    with Nil show ?thesis by (simp add: listForPost_def)
  next
    case (Cons q qs)
    then have "q \<in> set (filter (\<lambda>p. p_id p = post_id) (posts st))" by simp
    then have "post_id \<in> p_id ` set (posts st)" by auto
    with Cons show ?thesis by (simp add: listForPost_def)
  qed
next
  assume h: "distinct (map p_id (posts st)) \<and> p \<in> set (posts st)"
  then have "filter (\<lambda>q. p_id q = p_id p) (posts st) = [p]"
    by (simp add: filter_by_key)
  then show "listForPost st actor (p_id p) ordered =
        (if p_user_id p \<noteq> u_id actor then Inl NotAuthorizedError else Inr ordered)"
    by (simp add: listForPost_def)
qed simp_all

theorem ownership_failures_witness:
  "posts store_pending = [p1] \<and> p_user_id p1 \<noteq> u_id co2 \<and>
   update_post store_pending co2 1 ''T'' ''D'' None 7 =
     (Inl NotFoundOrUnauthorizedError, store_pending) \<and>
   delete_post store_pending co2 1 = (Inl NotFoundOrUnauthorizedError, store_pending) \<and>
   ''accepted'' \<in> set validStatuses \<and>
   applications store_pending = [a1] \<and> \<not> owns_post_of store_pending co2 a1 \<and>
   updateStatus store_pending co2 1 ''accepted'' =
     (Inl NotFoundOrUnauthorizedError, store_pending) \<and>
   distinct (map p_id (posts store_pending)) \<and> p1 \<in> set (posts store_pending) \<and>
   listForPost store_pending co2 (p_id p1) [(a1, c2, v1)] = Inl NotAuthorizedError \<and>
   p_user_id p1 = u_id co1 \<and>
   listForPost store_pending co1 (p_id p1) [(a1, c2, v1)] = Inr [(a1, c2, v1)] \<and>
   order_by listForPost_key (listForPost_rows store_pending (p_id p1)) [(a1, c2, v1)] \<and>
   listForPost store_pending co1 5 [] = Inl NotFoundError"
proof -
  have a: "\<forall>p \<in> set (posts store_pending). p_id p = 1 \<longrightarrow> p_user_id p \<noteq> u_id co2"
    and b: "''accepted'' \<in> set validStatuses \<and>
      (\<forall>a \<in> set (applications store_pending). a_id a = 1 \<longrightarrow> \<not> owns_post_of store_pending co2 a)"
    and c: "distinct (map p_id (posts store_pending)) \<and> p1 \<in> set (posts store_pending)"
    by (simp_all add: example_defs validStatuses_def owns_post_of_def)
  have ex: "posts store_pending = [p1] \<and> p_user_id p1 \<noteq> u_id co2 \<and>
      applications store_pending = [a1] \<and> \<not> owns_post_of store_pending co2 a1 \<and>
      p_user_id p1 = u_id co1"
    by (simp add: example_defs owns_post_of_def)
  have ob: "order_by listForPost_key (listForPost_rows store_pending (p_id p1)) [(a1, c2, v1)]"
    by (simp add: order_by_def listForPost_rows_def example_defs)
  have ab: "5 \<notin> p_id ` set (posts store_pending)"
    by (simp add: example_defs)
  note o = ownership_failures[THEN conjunct1, THEN mp]
    ownership_failures[THEN conjunct2, THEN conjunct1, THEN mp]
    ownership_failures[THEN conjunct2, THEN conjunct2, THEN conjunct1]
    ownership_failures[THEN conjunct2, THEN conjunct2, THEN conjunct2, THEN conjunct1, THEN mp]
  show ?thesis
    using b c ex ob ab o(1)[OF a, of "''T''" "''D''" None 7] o(2)[OF b]
      o(3)[of store_pending co1 5 "[]"]
      o(4)[OF c, of co2 "[(a1, c2, v1)]"] o(4)[OF c, of co1 "[(a1, c2, v1)]"]
    by simp
qed

text \<open>
  C9 as stated fails: the company \<open>co2\<close> asks for the applications of \<open>p1\<close>, the post
  of \<open>co1\<close>, and is answered 403.
\<close>

theorem listForPost_forbidden_counterexample:
  "listForPost store_pending co2 1 [(a1, c2, v1)] = Inl NotAuthorizedError \<and>
   http_status NotAuthorizedError = 403"
  by (simp add: example_defs listForPost_def)

section \<open>Expiration of posts\<close>

text \<open>
  C2 (as amended). At every site the comparison is strict, and a \<open>find_job\<close> post is never
  expired. The computed column of the feed, the first key of its ORDER BY clause and the
  computed column of the single-post read hold a \<open>find_candidate\<close> post to be expired
  exactly when its creation lies strictly before the cutoff that the database computes as
  \<^verbatim>\<open>CURRENT_TIMESTAMP - INTERVAL '10 days'\<close>. The apply handler refuses a
  \<open>find_candidate\<close> post as expired exactly when strictly more than ten days of 24 hours
  have passed since its creation. The two rules are one when the ten days of the database
  have 24 hours each, that is, when the cutoff is \<open>cutoff_24h now\<close>.
\<close>

theorem expiration_rule:
  "(is_expired cutoff p \<longleftrightarrow>
      p_post_type p = ''find_candidate'' \<and> p_created_at p < cutoff) \<and>
   (p_post_type p = ''find_job'' \<longrightarrow> \<not> is_expired cutoff p) \<and>
   r_is_expired (feed_select cutoff (p, u, c, f)) = is_expired cutoff p \<and>
   expiration_bucket cutoff p = (if is_expired cutoff p then 1 else 0) \<and>
   (get_post st post_id cutoff = Inr r \<longrightarrow>
      r_is_expired r = is_expired cutoff (r_post r)) \<and>
   (distinct (map p_id (posts st)) \<and> p \<in> set (posts st) \<and>
    u_account_type actor = ''candidate'' \<longrightarrow>
      (apply_post st actor (p_id p) cv_id now = (Inl ExpiredPostError, st)) =
      (p_post_type p = ''find_candidate'' \<and> ten_days < now - p_created_at p)) \<and>
   (is_expired (cutoff_24h now) p \<longleftrightarrow>
      p_post_type p = ''find_candidate'' \<and> ten_days < now - p_created_at p)"
proof (intro conjI impI)
  assume h: "distinct (map p_id (posts st)) \<and> p \<in> set (posts st) \<and>
    u_account_type actor = ''candidate''"
  then have "filter (\<lambda>q. p_id q = p_id p) (posts st) = [p]"
    by (simp add: filter_by_key)
  with h show "(apply_post st actor (p_id p) cv_id now = (Inl ExpiredPostError, st)) =
      (p_post_type p = ''find_candidate'' \<and> ten_days < now - p_created_at p)"
    by (auto simp: apply_post_def isExpired_def Let_def)
qed (auto simp: is_expired_def expiration_bucket_def cutoff_24h_def get_post_row)

text \<open>
  The theorem at \<open>p1\<close>, created at time 0, one millisecond after ten days of 24 hours.
\<close>

theorem expiration_rule_witness:
  "is_expired (cutoff_24h (ten_days + 1)) p1 \<and> is_expired 1 p1 \<and> \<not> is_expired 0 p1 \<and>
   distinct (map p_id (posts store0)) \<and> p1 \<in> set (posts store0) \<and>
   u_account_type c2 = ''candidate'' \<and>
   apply_post store0 c2 (p_id p1) 1 (ten_days + 1) = (Inl ExpiredPostError, store0) \<and>
   get_post store0 1 1 =
     Inr \<lparr>r_post = p1, r_author = co1, r_cv = None, r_is_expired = True\<rparr> \<and>
   r_is_expired \<lparr>r_post = p1, r_author = co1, r_cv = None, r_is_expired = True\<rparr>"
proof -
  have e: "p_post_type p1 = ''find_candidate''" "p_created_at p1 = 0"
    by (simp_all add: p1_def)
  have h: "distinct (map p_id (posts store0)) \<and> p1 \<in> set (posts store0) \<and>
      u_account_type c2 = ''candidate''"
    by (simp add: example_defs)
  have g: "get_post store0 1 1 =
      Inr \<lparr>r_post = p1, r_author = co1, r_cv = None, r_is_expired = True\<rparr>"
    by (simp add: get_post_def left_join_def is_expired_def example_defs)
  note r = expiration_rule[THEN conjunct1]
    expiration_rule[THEN conjunct2, THEN conjunct2, THEN conjunct2, THEN conjunct2,
      THEN conjunct1, THEN mp]
    expiration_rule[THEN conjunct2, THEN conjunct2, THEN conjunct2, THEN conjunct2,
      THEN conjunct2, THEN conjunct1, THEN mp]
    expiration_rule[THEN conjunct2, THEN conjunct2, THEN conjunct2, THEN conjunct2,
      THEN conjunct2, THEN conjunct2]
  show ?thesis
    using h g r(1)[of 1 p1] r(1)[of 0 p1] r(2)[OF g] r(3)[OF h, of 1 "ten_days + 1"]
      r(4)[of "ten_days + 1" p1]
    by (simp add: e)
qed

text \<open>
  C2 as stated fails at the boundary: exactly ten days of 24 hours after its creation
  \<open>p1\<close> is not expired. The apply handler accepts the application, and with the cutoff
  of such days the single-post read shows the post as not expired.
\<close>

theorem expiration_boundary_counterexample:
  "p_post_type p1 = ''find_candidate'' \<and>
   ten_days \<le> ten_days - p_created_at p1 \<and>
   apply_post store0 c2 1 1 ten_days =
     (Inr (a1\<lparr>a_created_at := ten_days\<rparr>),
      store0\<lparr>applications := [a1\<lparr>a_created_at := ten_days\<rparr>], application_seq := 2\<rparr>) \<and>
   \<not> is_expired (cutoff_24h ten_days) p1 \<and>
   get_post store0 1 (cutoff_24h ten_days) =
     Inr \<lparr>r_post = p1, r_author = co1, r_cv = None, r_is_expired = False\<rparr>"
  by (simp add: example_defs get_post_def left_join_def is_expired_def apply_post_def
      isExpired_def default_status_def cutoff_24h_def Let_def numeral_2_eq_2)

section \<open>Order of the feed\<close>

text \<open>
  C3. In every page of the feed, whichever admissible order the database returned, two
  adjacent rows ascend in the pair (expiration bucket, follow bucket), compared
  lexicographically, and rows with equal pairs descend in \<open>created_at\<close>.
\<close>

theorem feed_adjacent_order:
  assumes "order_by (feed_key cutoff) (feed_join st viewer type) ordered"
    and "get_posts page limit cutoff ordered = Inr out"
    and "Suc i < length out"
  shows "(row_expiration_bucket (out ! i) < row_expiration_bucket (out ! Suc i) \<or>
          row_expiration_bucket (out ! i) = row_expiration_bucket (out ! Suc i) \<and>
          row_follow_bucket (out ! i) \<le> row_follow_bucket (out ! Suc i)) \<and>
         (row_expiration_bucket (out ! i) = row_expiration_bucket (out ! Suc i) \<and>
          row_follow_bucket (out ! i) = row_follow_bucket (out ! Suc i) \<longrightarrow>
          p_created_at (r_post (out ! Suc i)) \<le> p_created_at (r_post (out ! i)))"
proof -
  from assms(2) obtain rows where rows: "paginate page limit ordered = Inr rows"
    and out: "out = map (feed_select cutoff) rows"
    by (auto simp: get_posts_def split: sum.splits)
  from assms(1) have "sorted (map (feed_key cutoff) ordered)"
    by (simp add: order_by_def)
  then have srt: "sorted (map (feed_key cutoff) rows)"
    using rows by (rule paginate_sorted)
  from assms(3) out have len: "Suc i < length rows" by simp
  then have "map (feed_key cutoff) rows ! i \<le> map (feed_key cutoff) rows ! Suc i"
    using srt by (simp add: sorted_iff_nth_Suc del: nth_map)
  with len have "feed_key cutoff (rows ! i) \<le> feed_key cutoff (rows ! Suc i)"
    by simp
  moreover from len out have "out ! i = feed_select cutoff (rows ! i)"
    and "out ! Suc i = feed_select cutoff (rows ! Suc i)" by simp_all
  ultimately show ?thesis
    by (auto simp: feed_key_select[of cutoff "rows ! i"] feed_key_select[of cutoff "rows ! Suc i"]
        less_eq_prod_def)
qed

text \<open>
  The theorem in the feed of \<open>c1\<close> at a cutoff of 50: \<open>p1\<close>, created at 0, is expired and
  comes after the post \<open>p3\<close> of a company that \<open>c1\<close> does not follow, although \<open>c1\<close>
  follows the author of \<open>p1\<close>.
\<close>

theorem feed_adjacent_order_witness:
  "order_by (feed_key 50) (feed_join store_feed 2 None) [j3, j1] \<and>
   get_posts 1 10 50 [j3, j1] =
     Inr [feed_select 50 j3, feed_select 50 j1] \<and>
   Suc 0 < length [feed_select 50 j3, feed_select 50 j1] \<and>
   r_is_following_author (feed_select 50 j1) \<and>
   row_expiration_bucket (feed_select 50 j3) = 0 \<and>
   row_expiration_bucket (feed_select 50 j1) = 1 \<and>
   row_expiration_bucket (feed_select 50 j3)
     < row_expiration_bucket (feed_select 50 j1)"
proof -
  have a: "order_by (feed_key 50) (feed_join store_feed 2 None) [j3, j1]"
    by (simp add: order_by_def feed_join_store_feed feed_key_feed add_mset_commute)
  have b: "get_posts 1 10 50 [j3, j1] =
      Inr [feed_select 50 j3, feed_select 50 j1]"
    by (simp add: get_posts_def paginate_def)
  have c: "Suc 0 < length [feed_select 50 j3, feed_select 50 j1]"
    by simp
  have k: "row_expiration_bucket (feed_select 50 j3) = 0"
    "row_expiration_bucket (feed_select 50 j1) = 1"
    "r_is_following_author (feed_select 50 j1)"
    by (simp_all add: j1_def j3_def p1_def p3_def row_expiration_bucket_def is_expired_def)
  show ?thesis
    using a b c k feed_adjacent_order[OF a b c]
    by simp
qed

text \<open>
  C7 (as amended). The ORDER BY clause has three keys and no more. The key of a row does
  not depend on the post id, and every rearrangement of a result that keeps the sequence
  of keys is again a result: rows that agree on all three keys come back in an order that
  the query does not fix. Within one returned order, a page and the next one are
  consecutive slices of it.
\<close>

theorem feed_ties_unordered:
  "(order_by (feed_key cutoff) rows res \<and> mset res' = mset res \<and>
    map (feed_key cutoff) res' = map (feed_key cutoff) res \<longrightarrow>
      order_by (feed_key cutoff) rows res') \<and>
   feed_key cutoff (p\<lparr>p_id := n\<rparr>, u, c, f) = feed_key cutoff (p, u, c, f) \<and>
   (0 \<le> limit \<and> 1 \<le> page \<and> paginate page limit res = Inr xs \<and>
    paginate (page + 1) limit res = Inr ys \<longrightarrow>
      xs @ ys = take (nat (2 * limit)) (drop (nat ((page - 1) * limit)) res))"
proof (intro conjI impI)
  assume "order_by (feed_key cutoff) rows res \<and> mset res' = mset res \<and>
    map (feed_key cutoff) res' = map (feed_key cutoff) res"
  then show "order_by (feed_key cutoff) rows res'"
    by (simp add: order_by_def)
next
  show "feed_key cutoff (p\<lparr>p_id := n\<rparr>, u, c, f) = feed_key cutoff (p, u, c, f)"
    by (simp add: expiration_bucket_def)
next
  assume h: "0 \<le> limit \<and> 1 \<le> page \<and> paginate page limit res = Inr xs \<and>
    paginate (page + 1) limit res = Inr ys"
  then have off: "0 \<le> (page - 1) * limit" by simp
  have "page * limit = limit + (page - 1) * limit"
    by (simp add: algebra_simps)
  then have nxt: "nat (page * limit) = nat limit + nat ((page - 1) * limit)"
    using h off by (simp add: nat_add_distrib)
  have two: "nat (2 * limit) = nat limit + nat limit"
    using h by simp
  from h off have xs: "xs = take (nat limit) (drop (nat ((page - 1) * limit)) res)"
    by (auto simp: paginate_def Let_def split: if_splits)
  from h have ys: "ys = take (nat limit) (drop (nat (page * limit)) res)"
    by (auto simp: paginate_def Let_def split: if_splits)
  show "xs @ ys = take (nat (2 * limit)) (drop (nat ((page - 1) * limit)) res)"
    unfolding xs ys two nxt by (simp add: take_add)
qed

theorem feed_ties_unordered_witness:
  "order_by (feed_key 50) (feed_join store_ties 3 None) [j2, j3] \<and>
   mset [j3, j2] = mset [j2, j3] \<and>
   map (feed_key 50) [j3, j2] = map (feed_key 50) [j2, j3] \<and>
   order_by (feed_key 50) (feed_join store_ties 3 None) [j3, j2] \<and>
   (0::int) \<le> 1 \<and> (1::int) \<le> 1 \<and>
   paginate 1 1 [j2, j3] = Inr [j2] \<and> paginate (1 + 1) 1 [j2, j3] = Inr [j3] \<and>
   [j2] @ [j3] = take (nat (2 * 1)) (drop (nat ((1 - 1) * 1)) [j2, j3])"
proof -
  have a: "order_by (feed_key 50) (feed_join store_ties 3 None) [j2, j3] \<and>
      mset [j3, j2] = mset [j2, j3] \<and>
      map (feed_key 50) [j3, j2] = map (feed_key 50) [j2, j3]"
    by (simp add: order_by_def feed_join_store_ties feed_key_ties add_mset_commute)
  have b: "(0::int) \<le> 1 \<and> (1::int) \<le> 1 \<and>
      paginate 1 1 [j2, j3] = Inr [j2] \<and> paginate (1 + 1) 1 [j2, j3] = Inr [j3]"
    by (simp add: paginate_def)
  show ?thesis
    using a b feed_ties_unordered[THEN conjunct1, THEN mp, OF a]
      feed_ties_unordered[THEN conjunct2, THEN conjunct2, THEN mp, OF b]
    by blast
qed

text \<open>
  C7 as stated fails: \<open>j2\<close> and \<open>j3\<close> agree on all three keys, and both orders are
  results of the query, the one with ascending ids included. With one post per page, the
  first page of one call and the second page of another call can both show \<open>p2\<close>, and
  neither shows \<open>p3\<close>.
\<close>

theorem feed_tie_break_counterexample:
  "order_by (feed_key 50) (feed_join store_ties 3 None) [j2, j3] \<and>
   order_by (feed_key 50) (feed_join store_ties 3 None) [j3, j2] \<and>
   feed_key 50 j2 = feed_key 50 j3 \<and>
   p_id (fst j2) < p_id (fst j3) \<and>
   get_posts 1 1 50 [j2, j3] = Inr [feed_select 50 j2] \<and>
   get_posts 2 1 50 [j3, j2] = Inr [feed_select 50 j2]"
proof -
  have "p_id (fst j2) < p_id (fst j3)"
    by (simp add: j2_def j3_def p2_def p3_def)
  then show ?thesis
    by (simp add: order_by_def feed_join_store_ties feed_key_ties add_mset_commute
        get_posts_def paginate_def)
qed

end
